theory Spec2Isabelle
  imports Complex_Main "HOL-Library.Word" "HOL-Library.Log_Nat"
begin

section \<open>JavaScript values\<close>

text \<open>
  A JavaScript string is a sequence of UTF-16 code units; \<open>.length\<close> counts them.
  \<open>lit\<close> turns an ASCII literal into such a sequence; the few characters of the
  templates that lie outside ASCII are given by their code unit.
\<close>

type_synonym code_unit = "16 word"
type_synonym jstring = "code_unit list"

definition lit :: "string \<Rightarrow> jstring" where
  "lit s = map of_char s"

definition LF :: code_unit where "LF = 0x0A"
definition LDQUO :: code_unit where "LDQUO = 0x201C"
definition RDQUO :: code_unit where "RDQUO = 0x201D"
definition BULLET :: code_unit where "BULLET = 0x2022"
definition EMDASH :: code_unit where "EMDASH = 0x2014"

text \<open>
  \<open>WhiteSpace\<close> and \<open>LineTerminator\<close> of ECMAScript: what \<open>String.prototype.trim\<close>
  removes and what \<open>parseInt\<close> skips at the start of its input.
\<close>

definition is_ws :: "code_unit \<Rightarrow> bool" where
  "is_ws c = (c \<in> {0x09, 0x0A, 0x0B, 0x0C, 0x0D, 0x20, 0xA0, 0x1680, 0x2028, 0x2029,
                     0x202F, 0x205F, 0x3000, 0xFEFF} \<or> (0x2000 \<le> c \<and> c \<le> 0x200A))"

definition trim :: "jstring \<Rightarrow> jstring" where
  "trim s = rev (dropWhile is_ws (rev (dropWhile is_ws s)))"

text \<open>
  Numbers. A finite double is a rational number, so the finite values are modelled in
  \<open>rat\<close>; \<open>fl\<close> rounds a rational to the nearest double (53 significant bits, ties to
  even), which is what a decimal literal and a multiplication do. Overflow and
  subnormals are left out: every number rounded below lies between 0.08 and 120.
\<close>

definition pow2 :: "int \<Rightarrow> rat" where
  "pow2 e = (if 0 \<le> e then 2 ^ nat e else 1 / 2 ^ nat (- e))"

definition ilog2 :: "rat \<Rightarrow> int" where
  "ilog2 x = (let (a, b) = quotient_of x; e = bitlen a - bitlen b
              in if pow2 e \<le> x then e else e - 1)"

definition round_half_even :: "rat \<Rightarrow> int" where
  "round_half_even y =
     (let n = \<lfloor>y\<rfloor>; r = y - of_int n
      in if r < 1 / 2 then n else if 1 / 2 < r then n + 1 else if even n then n else n + 1)"

definition fl :: "rat \<Rightarrow> rat" where
  "fl x = (if x = 0 then 0 else
     let e = ilog2 \<bar>x\<bar> - 52; m = round_half_even (\<bar>x\<bar> / pow2 e)
     in sgn x * of_int m * pow2 e)"

definition Math_floor :: "rat \<Rightarrow> int" where
  "Math_floor x = \<lfloor>x\<rfloor>"

text \<open>
  A number as JSON.parse and the coercions can produce it: the finite doubles, the two
  infinities (a literal such as 1e999) and NaN. The sign of zero is not modelled.
\<close>

datatype jsnum = NaN | NegInf | Fin rat | PosInf

fun Math_max :: "jsnum \<Rightarrow> jsnum \<Rightarrow> jsnum" where
  "Math_max NaN _ = NaN"
| "Math_max _ NaN = NaN"
| "Math_max PosInf _ = PosInf"
| "Math_max _ PosInf = PosInf"
| "Math_max NegInf y = y"
| "Math_max x NegInf = x"
| "Math_max (Fin a) (Fin b) = Fin (max a b)"

text \<open>
  A JSON value. \<open>JObj kvs\<close> is the object whose property \<open>k\<close> is \<open>map_of kvs k\<close>;
  a property read that finds nothing gives \<open>undefined\<close>, modelled as \<open>None\<close>.
\<close>

datatype json =
    JNull
  | JBool bool
  | JNum jsnum
  | JStr jstring
  | JArr "json list"
  | JObj "(jstring \<times> json) list"

text \<open>
  \<open>v.k\<close> for a value other than null and a name that no prototype defines (the code
  reads only progress, type, artifact, segments and deliverables, and the schema its
  nine keys): an own property of an object, undefined on everything else.
\<close>

definition get_prop :: "json \<Rightarrow> jstring \<Rightarrow> json option" where
  "get_prop v k = (case v of JObj kvs \<Rightarrow> map_of kvs k | _ \<Rightarrow> None)"

section \<open>The producer: app/api/generate/route.ts\<close>

subsection \<open>buildTimeline\<close>

record segment =
  seg_id :: jstring
  label :: jstring
  start :: int
  duration :: int
  description :: jstring

text \<open>The decimal digits of a natural number: what a template does with \<open>index + 1\<close>.\<close>

fun number_to_string :: "nat \<Rightarrow> jstring" where
  "number_to_string n =
     (if n < 10 then [of_nat (48 + n)]
      else number_to_string (n div 10) @ [of_nat (48 + n mod 10)])"

text \<open>\<open>xs[index] ?? d\<close>: an index past the end reads undefined.\<close>

definition index_or :: "'a list \<Rightarrow> nat \<Rightarrow> 'a \<Rightarrow> 'a" where
  "index_or xs index d = (if index < length xs then xs ! index else d)"

definition getLabel :: "nat \<Rightarrow> jstring" where
  "getLabel index =
     index_or [lit ''Hook'', lit ''Pain Point'', lit ''Transformation'', lit ''Proof'', lit ''CTA'']
       index (lit ''Beat '' @ number_to_string (index + 1))"

definition getDescription :: "nat \<Rightarrow> jstring \<Rightarrow> jstring \<Rightarrow> jstring \<Rightarrow> jstring" where
  "getDescription index topic tone platform =
     index_or
       [lit ''Open with an arresting motion graphic that telegraphs the promise around ''
          @ topic @ lit ''.'',
        lit ''Amplify the audience problem with kinetic captions tailored for ''
          @ platform @ lit ''.'',
        lit ''Reveal the transformation anchored by '' @ topic @ lit '' using '' @ tone
          @ lit '' pacing.'',
        lit ''Show tactile proof clips with split-screen receipts and animated UI.'',
        lit ''Deliver the CTA with punchy supers and looping background energy.'']
       index (lit ''Drive momentum into the next beat.'')"

definition beatPercents :: "rat list" where
  "beatPercents = [fl (18 / 100), fl (24 / 100), fl (2 / 10), fl (2 / 10), fl (18 / 100)]"

text \<open>
  The callback of \<open>beatPercents.map\<close>. \<open>segmentDuration\<close> is the duration it computes
  for the beat at \<open>index\<close> when the cursor stands at \<open>cursor\<close>; \<open>make_segment\<close> is the
  object it returns. (The parameter \<open>duration\<close> of the source is \<open>dur\<close> here: \<open>duration\<close>
  is the segment's field.)
\<close>

definition segmentDuration :: "int \<Rightarrow> nat \<Rightarrow> int \<Rightarrow> rat \<Rightarrow> int" where
  "segmentDuration dur index cursor pct =
     (let isLast = (index = length beatPercents - 1);
          segmentDuration0 =
            (if isLast then max (dur - cursor) 3
             else max 3 (Math_floor (fl (of_int dur * pct))))
      in if \<not> isLast \<and> cursor + segmentDuration0 \<ge> dur
         then max 3 (dur - cursor - 3) else segmentDuration0)"

definition make_segment ::
  "jstring \<Rightarrow> jstring \<Rightarrow> jstring \<Rightarrow> nat \<Rightarrow> int \<Rightarrow> int \<Rightarrow> segment" where
  "make_segment topic tone platform index cursor d =
     \<lparr> seg_id = lit ''segment-'' @ number_to_string (index + 1),
       label = getLabel index,
       start = cursor,
       duration = d,
       description = getDescription index topic tone platform \<rparr>"

text \<open>
  The map itself, from \<open>index\<close> over the remaining weights, with the \<open>cursor\<close> that the
  callback updates (\<open>cursor += segmentDuration\<close>) passed along.
\<close>

fun timeline_map ::
  "jstring \<Rightarrow> int \<Rightarrow> jstring \<Rightarrow> jstring \<Rightarrow> nat \<Rightarrow> int \<Rightarrow> rat list \<Rightarrow> segment list" where
  "timeline_map topic dur tone platform index cursor [] = []"
| "timeline_map topic dur tone platform index cursor (pct # rest) =
     make_segment topic tone platform index cursor (segmentDuration dur index cursor pct)
     # timeline_map topic dur tone platform (index + 1)
         (cursor + segmentDuration dur index cursor pct) rest"

definition buildTimeline :: "jstring \<Rightarrow> int \<Rightarrow> jstring \<Rightarrow> jstring \<Rightarrow> segment list" where
  "buildTimeline topic dur tone platform = timeline_map topic dur tone platform 0 0 beatPercents"

subsection \<open>The text builders\<close>

fun join :: "jstring \<Rightarrow> jstring list \<Rightarrow> jstring" where
  "join sep [] = []"
| "join sep [x] = x"
| "join sep (x # y # ys) = x @ sep @ join sep (y # ys)"

definition buildScript :: "jstring \<Rightarrow> jstring \<Rightarrow> jstring \<Rightarrow> jstring option \<Rightarrow> jstring" where
  "buildScript topic tone audience callToAction =
     (let cta = (case callToAction of
                   Some c \<Rightarrow> c
                 | None \<Rightarrow> lit ''Tap to explore '' @ topic @ lit '' today.'')
      in join [LF, LF]
           [lit ''HOOK: Imagine '' @ audience @ lit '' witnessing '' @ topic
              @ lit '' unfold in under 30 seconds.'',
            lit ''PAIN: You'' @ [0x27] @ lit ''re losing attention within the first 2 seconds ''
              @ [EMDASH] @ lit '' that ends now.'',
            lit ''TRANSFORMATION: We stack motion, color, and story into a '' @ tone
              @ lit '' reel that auto-adapts in real time.'',
            lit ''PROOF: Live data visuals, testimonial flashes, and hero product macros keep retention high.'',
            lit ''CTA: '' @ cta])"

definition buildOverlayPlan :: "jstring \<Rightarrow> jstring \<Rightarrow> jstring option \<Rightarrow> jstring" where
  "buildOverlayPlan topic platform brandColor =
     join [LF]
       [[BULLET] @ lit '' Gradient wash using ''
          @ (case brandColor of Some c \<Rightarrow> c | None \<Rightarrow> lit ''#7f5af0'')
          @ lit '' to match '' @ platform @ lit '' chroma.'',
        [BULLET] @ lit '' Dynamic caption blocks driven by speech-to-text latency under 80ms.'',
        [BULLET] @ lit '' Sidecar frame featuring live metrics relevant to '' @ topic @ lit ''.'',
        [BULLET] @ lit '' End-frame sticker with adaptive sizing for vertical safe zones.'']"

definition buildVoicePlan :: "jstring \<Rightarrow> jstring \<Rightarrow> jstring \<Rightarrow> jstring" where
  "buildVoicePlan voice tone audience =
     join [LF]
       [[BULLET] @ lit '' Register: '' @ voice @ lit '' with '' @ tone @ lit '' pacing.'',
        [BULLET] @ lit '' Inflections target '' @ audience
          @ lit '' attention spikes on seconds 0-3, 12, and 22.'',
        [BULLET] @ lit '' Breath map inserted to sync with beat-based cut rhythm.'',
        [BULLET] @ lit '' Dual-track render for automatic ducking under SFX beds.'']"

subsection \<open>ReelRequestSchema\<close>

record reel_request =
  topic :: jstring
  platform :: jstring
  tone :: jstring
  length_str :: jstring
  voice :: jstring
  callToAction :: "jstring option"
  audience :: jstring
  autopilot :: bool
  brandColor :: "jstring option"

datatype issue_code = invalid_type | too_small

type_synonym issue = "string list \<times> issue_code"

text \<open>\<open>z.string().min(3)\<close>: a string of at least three code units.\<close>

definition string_min3 :: "string \<Rightarrow> json option \<Rightarrow> issue list" where
  "string_min3 key v =
     (case v of
        Some (JStr s) \<Rightarrow> (if length s < 3 then [([key], too_small)] else [])
      | _ \<Rightarrow> [([key], invalid_type)])"

text \<open>
  \<open>z.string().default(d)\<close> and \<open>z.string().optional()\<close>: undefined is accepted,
  anything else has to be a string.
\<close>

definition string_or_undefined :: "string \<Rightarrow> json option \<Rightarrow> issue list" where
  "string_or_undefined key v =
     (case v of None \<Rightarrow> [] | Some (JStr s) \<Rightarrow> [] | _ \<Rightarrow> [([key], invalid_type)])"

definition boolean_or_undefined :: "string \<Rightarrow> json option \<Rightarrow> issue list" where
  "boolean_or_undefined key v =
     (case v of None \<Rightarrow> [] | Some (JBool b) \<Rightarrow> [] | _ \<Rightarrow> [([key], invalid_type)])"

definition string_default :: "string \<Rightarrow> json option \<Rightarrow> jstring" where
  "string_default d v = (case v of Some (JStr s) \<Rightarrow> s | _ \<Rightarrow> lit d)"

definition string_optional :: "json option \<Rightarrow> jstring option" where
  "string_optional v = (case v of Some (JStr s) \<Rightarrow> Some s | _ \<Rightarrow> None)"

definition boolean_default :: "bool \<Rightarrow> json option \<Rightarrow> bool" where
  "boolean_default d v = (case v of Some (JBool b) \<Rightarrow> b | _ \<Rightarrow> d)"

definition ReelRequestSchema_issues :: "json \<Rightarrow> issue list" where
  "ReelRequestSchema_issues j =
     (case j of
        JObj kvs \<Rightarrow>
          string_min3 ''topic'' (get_prop j (lit ''topic''))
          @ string_or_undefined ''platform'' (get_prop j (lit ''platform''))
          @ string_or_undefined ''tone'' (get_prop j (lit ''tone''))
          @ string_or_undefined ''length'' (get_prop j (lit ''length''))
          @ string_or_undefined ''voice'' (get_prop j (lit ''voice''))
          @ string_or_undefined ''callToAction'' (get_prop j (lit ''callToAction''))
          @ string_or_undefined ''audience'' (get_prop j (lit ''audience''))
          @ boolean_or_undefined ''autopilot'' (get_prop j (lit ''autopilot''))
          @ string_or_undefined ''brandColor'' (get_prop j (lit ''brandColor''))
      | _ \<Rightarrow> [([], invalid_type)])"

text \<open>\<open>ReelRequestSchema.parse\<close>: the issues (a thrown ZodError) or the validated payload.\<close>

definition ReelRequestSchema_parse :: "json \<Rightarrow> issue list + reel_request" where
  "ReelRequestSchema_parse j =
     (if ReelRequestSchema_issues j \<noteq> [] then Inl (ReelRequestSchema_issues j)
      else Inr \<lparr> topic = string_default [] (get_prop j (lit ''topic'')),
                 platform = string_default ''instagram'' (get_prop j (lit ''platform'')),
                 tone = string_default ''cinematic'' (get_prop j (lit ''tone'')),
                 length_str = string_default ''30'' (get_prop j (lit ''length'')),
                 voice = string_default ''warm'' (get_prop j (lit ''voice'')),
                 callToAction = string_optional (get_prop j (lit ''callToAction'')),
                 audience = string_default ''general'' (get_prop j (lit ''audience'')),
                 autopilot = boolean_default True (get_prop j (lit ''autopilot'')),
                 brandColor = string_optional (get_prop j (lit ''brandColor'')) \<rparr>)"

subsection \<open>targetDuration\<close>

definition is_digit :: "code_unit \<Rightarrow> bool" where
  "is_digit c = (0x30 \<le> c \<and> c \<le> 0x39)"

definition digit_value :: "code_unit \<Rightarrow> int" where
  "digit_value c = uint c - 48"

text \<open>
  \<open>Number.parseInt(s, 10)\<close>: skip leading white space, read a sign, then the longest
  run of decimal digits; no digit gives NaN, modelled as \<open>None\<close>. The value is kept as
  an exact integer: the rounding of a long digit run to a double is monotone and fixes
  every integer up to \<open>2 ^ 53\<close>, so the comparisons with 15 and 120 below are the same.
\<close>

definition parseInt10 :: "jstring \<Rightarrow> int option" where
  "parseInt10 s =
     (let S = dropWhile is_ws s;
          sign = (if S \<noteq> [] \<and> hd S = 0x2D then - 1 else 1 :: int);
          S' = (if S \<noteq> [] \<and> (hd S = 0x2B \<or> hd S = 0x2D) then tl S else S);
          Z = takeWhile is_digit S'
      in if Z = [] then None
         else Some (sign * foldl (\<lambda>acc c. 10 * acc + digit_value c) 0 Z))"

definition targetDuration :: "reel_request \<Rightarrow> int" where
  "targetDuration payload =
     (case parseInt10 (length_str payload) of
        None \<Rightarrow> 45
      | Some numeric \<Rightarrow> min (max numeric 15) 120)"

text \<open>The clamp of the specification, written from its words.\<close>

definition clamp :: "int \<Rightarrow> int \<Rightarrow> int \<Rightarrow> int" where
  "clamp x lo hi = (if x < lo then lo else if hi < x then hi else x)"

subsection \<open>eventSequence and POST\<close>

record deliverables =
  d_topic :: jstring
  d_platform :: jstring
  d_duration :: int
  d_callToAction :: "jstring option"
  d_script :: jstring
  d_overlays :: jstring
  d_segments :: "segment list"
  d_voicePlan :: jstring

text \<open>
  The four shapes of event, by their \<open>type\<close>; the arguments are the other fields in the
  order the object literals of \<open>eventSequence\<close> write them:
  status (id, stage, agent, detail, progress, eta),
  asset (id, artifact, title, content, progress, agent),
  timeline (id, segments, progress, agent),
  result (id, agent, progress, deliverables).
\<close>

datatype event =
    Status jstring jstring jstring jstring rat int
  | Asset jstring jstring jstring jstring rat jstring
  | Timeline jstring "segment list" rat jstring
  | Result jstring jstring rat deliverables

fun event_type :: "event \<Rightarrow> string" where
  "event_type (Status i st ag de p e) = ''status''"
| "event_type (Asset i ar ti co p ag) = ''asset''"
| "event_type (Timeline i sg p ag) = ''timeline''"
| "event_type (Result i ag p d) = ''result''"

fun event_progress :: "event \<Rightarrow> rat" where
  "event_progress (Status i st ag de p e) = p"
| "event_progress (Asset i ar ti co p ag) = p"
| "event_progress (Timeline i sg p ag) = p"
| "event_progress (Result i ag p d) = p"

definition eventSequence :: "reel_request \<Rightarrow> event list" where
  "eventSequence payload =
     (let segments = buildTimeline (topic payload) (targetDuration payload) (tone payload)
                       (platform payload);
          script = buildScript (topic payload) (tone payload) (audience payload)
                     (callToAction payload);
          overlays = buildOverlayPlan (topic payload) (platform payload) (brandColor payload);
          voicePlan = buildVoicePlan (voice payload) (tone payload) (audience payload)
      in [Status (lit ''briefing'') (lit ''Creative Brief Intake'') (lit ''Director AI'')
            (lit ''Synced on goal-driven narrative for '' @ platform payload @ lit '' reels.'')
            (fl (8 / 100)) 90,
          Status (lit ''ideation'') (lit ''Narrative Engine'') (lit ''StoryCrafter'')
            (lit ''Drafting multi-beat storyline themed around '' @ [LDQUO] @ topic payload
               @ [RDQUO] @ lit ''.'')
            (fl (24 / 100)) 75,
          Asset (lit ''script'') (lit ''script'') (lit ''AI Script Draft v1'') script
            (fl (42 / 100)) (lit ''StoryCrafter''),
          Status (lit ''shotlist'') (lit ''Visual Sequencer'') (lit ''VisionGrid'')
            (lit ''Mapping hero shots, transitions, and overlays for pacing.'')
            (fl (58 / 100)) 60,
          Timeline (lit ''timeline'') segments (fl (7 / 10)) (lit ''VisionGrid''),
          Status (lit ''voice'') (lit ''Voice Design'') (lit ''EchoSynth'')
            (lit ''Modeling '' @ voice payload @ lit '' vocal profile with '' @ tone payload
               @ lit '' energy.'')
            (fl (82 / 100)) 45,
          Asset (lit ''voice-plan'') (lit ''voicePlan'') (lit ''Voiceover Production Map'')
            voicePlan (fl (9 / 10)) (lit ''EchoSynth''),
          Asset (lit ''overlay-plan'') (lit ''overlays'') (lit ''On-screen Overlay Strategy'')
            overlays (fl (94 / 100)) (lit ''VisionGrid''),
          Status (lit ''render'') (lit ''Real-Time Render Orchestration'') (lit ''PipelineOps'')
            (lit ''Coordinating camera moves, audio mix, and color matrix.'')
            (fl (98 / 100)) 20,
          Result (lit ''delivery'') (lit ''Director AI'') 1
            \<lparr> d_topic = topic payload,
              d_platform = platform payload,
              d_duration = targetDuration payload,
              d_callToAction = callToAction payload,
              d_script = script,
              d_overlays = overlays,
              d_segments = segments,
              d_voicePlan = voicePlan \<rparr>])"

text \<open>
  What \<open>POST\<close> answers. A request whose body is not JSON (\<open>request.json()\<close> rejects) is
  \<open>None\<close>. The error response carries its status, the \<open>error\<close> field of its body and
  the cause that \<open>details\<close> renders; the stream is the list of events, each written as
  one line by \<open>JSON.stringify(event) + "\n"\<close>.
\<close>

datatype failure = BodyNotJson | ZodError "issue list"

datatype response =
    JsonResponse nat jstring failure
  | NdjsonStream "event list"

definition POST :: "json option \<Rightarrow> response" where
  "POST request =
     (case request of
        None \<Rightarrow> JsonResponse 400 (lit ''Invalid request payload'') BodyNotJson
      | Some json \<Rightarrow>
          (case ReelRequestSchema_parse json of
             Inl issues \<Rightarrow> JsonResponse 400 (lit ''Invalid request payload'') (ZodError issues)
           | Inr payload \<Rightarrow> NdjsonStream (eventSequence payload)))"

section \<open>The consumer: handleGenerate of the page component\<close>

subsection \<open>What the runtime supplies\<close>

text \<open>
  \<open>JSON.parse\<close> and the coercions of JavaScript are the runtime's, not the page's, so the
  model takes them as parameters. \<open>JSON_parse\<close> gives the value, or the message of the
  SyntaxError it throws. \<open>ToNumber\<close> and \<open>ToPropertyKey\<close> are consulted only where the
  coercion depends on number formatting or parsing (strings, arrays, objects as numbers;
  numbers, arrays, objects as keys); the other cases are written out below.
\<close>

record js_runtime =
  JSON_parse :: "jstring \<Rightarrow> jstring + json"
  ToNumber :: "json \<Rightarrow> jsnum"
  ToPropertyKey :: "json \<Rightarrow> jstring"

definition to_number :: "js_runtime \<Rightarrow> json \<Rightarrow> jsnum" where
  "to_number rt v =
     (case v of
        JNum x \<Rightarrow> x
      | JBool b \<Rightarrow> Fin (if b then 1 else 0)
      | JNull \<Rightarrow> Fin 0
      | _ \<Rightarrow> ToNumber rt v)"

definition to_property_key :: "js_runtime \<Rightarrow> json option \<Rightarrow> jstring" where
  "to_property_key rt v =
     (case v of
        None \<Rightarrow> lit ''undefined''
      | Some (JStr s) \<Rightarrow> s
      | Some JNull \<Rightarrow> lit ''null''
      | Some (JBool b) \<Rightarrow> (if b then lit ''true'' else lit ''false'')
      | Some w \<Rightarrow> ToPropertyKey rt w)"

text \<open>
  What the \<open>catch\<close> block can see. The state keeps \<open>err.message\<close>; the text of a
  built-in exception is the engine's, so the state of the model keeps the exception:
  the SyntaxError of \<open>JSON.parse\<close> with its message, the TypeError of a property read
  on null, and the \<open>Error\<close> the page throws itself.
\<close>

datatype js_error = SyntaxError jstring | TypeError | Error jstring

subsection \<open>The state of the page\<close>

record ui_state =
  statusFeed :: "json list"
  assetVault :: "jstring \<rightharpoonup> json"
  segments :: "json option"
  result :: "json option"
  isGenerating :: bool
  progress :: jsnum
  error :: "js_error option"

text \<open>The seven setters at the start of \<open>handleGenerate\<close>.\<close>

definition reset_state :: "ui_state \<Rightarrow> ui_state" where
  "reset_state st =
     st\<lparr> isGenerating := True, error := None, progress := Fin 0, statusFeed := [],
         segments := Some (JArr []), assetVault := Map.empty, result := Some JNull \<rparr>"

subsection \<open>One line\<close>

text \<open>
  The body of \<open>for (const line of lines)\<close> after \<open>JSON.parse\<close>. Every setter takes an
  updater or a value, so the updates apply in the order written. A payload that is null
  throws at its first property read.
\<close>

definition apply_payload :: "js_runtime \<Rightarrow> ui_state \<Rightarrow> json \<Rightarrow> js_error + ui_state" where
  "apply_payload rt st payload =
     (if payload = JNull then Inl TypeError
      else
        let st1 = st\<lparr> progress :=
                    Math_max (progress st)
                      (case get_prop payload (lit ''progress'') of
                         None \<Rightarrow> progress st
                       | Some JNull \<Rightarrow> progress st
                       | Some v \<Rightarrow> to_number rt v) \<rparr>;
            ty = get_prop payload (lit ''type'')
        in Inr (if ty = Some (JStr (lit ''status''))
                then st1\<lparr> statusFeed := statusFeed st1 @ [payload] \<rparr>
                else if ty = Some (JStr (lit ''asset''))
                then st1\<lparr> assetVault :=
                       (assetVault st1)
                         (to_property_key rt (get_prop payload (lit ''artifact'')) \<mapsto> payload) \<rparr>
                else if ty = Some (JStr (lit ''timeline''))
                then st1\<lparr> segments := get_prop payload (lit ''segments'') \<rparr>
                else if ty = Some (JStr (lit ''result''))
                then st1\<lparr> result := get_prop payload (lit ''deliverables''), progress := Fin 1 \<rparr>
                else st1))"

definition apply_line :: "js_runtime \<Rightarrow> ui_state \<Rightarrow> jstring \<Rightarrow> js_error + ui_state" where
  "apply_line rt st line =
     (if trim line = [] then Inr st
      else case JSON_parse rt line of
             Inl message \<Rightarrow> Inl (SyntaxError message)
           | Inr payload \<Rightarrow> apply_payload rt st payload)"

text \<open>
  The \<open>for\<close> loop: the state it reaches, and the exception that ended it, if one did.
\<close>

fun process_lines :: "js_runtime \<Rightarrow> ui_state \<Rightarrow> jstring list \<Rightarrow> ui_state \<times> js_error option" where
  "process_lines rt st [] = (st, None)"
| "process_lines rt st (line # lines) =
     (case apply_line rt st line of
        Inl e \<Rightarrow> (st, Some e)
      | Inr st' \<Rightarrow> process_lines rt st' lines)"

subsection \<open>The read loop\<close>

text \<open>\<open>s.split(d)\<close> for a separator of one code unit: one piece more than separators.\<close>

fun split_on :: "'a \<Rightarrow> 'a list \<Rightarrow> 'a list list" where
  "split_on d [] = [[]]"
| "split_on d (c # cs) =
     (if c = d then [] # split_on d cs
      else (c # hd (split_on d cs)) # tl (split_on d cs))"

text \<open>\<open>lines.pop() ?? ""\<close> and what it leaves in \<open>lines\<close>.\<close>

definition pop_or_empty :: "jstring list \<Rightarrow> jstring" where
  "pop_or_empty pieces = (if pieces = [] then [] else last pieces)"

text \<open>
  The \<open>while (true)\<close> loop over the reads of the body. Its input is the text that
  \<open>decoder.decode(value, {stream: true})\<close> returns for each read, in order; the end of the
  list is the read that says \<open>done\<close>. The result is the state and the buffer the loop
  stopped with, and the exception that ended it, if one did.
\<close>

fun read_loop ::
  "js_runtime \<Rightarrow> ui_state \<Rightarrow> jstring \<Rightarrow> jstring list \<Rightarrow> (ui_state \<times> jstring) \<times> js_error option" where
  "read_loop rt st buffer [] = ((st, buffer), None)"
| "read_loop rt st buffer (chunk # chunks) =
     (case process_lines rt st (butlast (split_on LF (buffer @ chunk))) of
        (st', Some e) \<Rightarrow> ((st', pop_or_empty (split_on LF (buffer @ chunk))), Some e)
      | (st', None) \<Rightarrow> read_loop rt st' (pop_or_empty (split_on LF (buffer @ chunk))) chunks)"

subsection \<open>handleGenerate\<close>

text \<open>
  \<open>body\<close> is \<open>None\<close> for a response without a body, else the decoded reads. A fetch or a
  read that rejects is not modelled.
\<close>

definition handleGenerate :: "js_runtime \<Rightarrow> ui_state \<Rightarrow> jstring list option \<Rightarrow> ui_state" where
  "handleGenerate rt st body =
     (let st1 =
        (case body of
           None \<Rightarrow> (reset_state st)\<lparr> error := Some (Error (lit ''Streaming channel unavailable.'')) \<rparr>
         | Some chunks \<Rightarrow>
             (case read_loop rt (reset_state st) [] chunks of
                ((st', buffer), None) \<Rightarrow> st'
              | ((st', buffer), Some e) \<Rightarrow> st'\<lparr> error := Some e \<rparr>))
      in st1\<lparr> isGenerating := False \<rparr>)"

text \<open>
  The lines a stream has completed: the pieces of its whole text that a line feed ends.
\<close>

definition complete_lines :: "jstring list \<Rightarrow> jstring list" where
  "complete_lines chunks = butlast (split_on LF (concat chunks))"

section \<open>Example inputs\<close>

text \<open>The brief of the specification's scenario, and the payload the schema makes of it.\<close>

definition example_brief :: json where
  "example_brief =
     JObj [(lit ''topic'', JStr (lit ''AI studio launch'')),
           (lit ''length'', JStr (lit ''45'')),
           (lit ''platform'', JStr (lit ''tiktok''))]"

definition example_payload :: reel_request where
  "example_payload =
     \<lparr> topic = lit ''AI studio launch'', platform = lit ''tiktok'', tone = lit ''cinematic'',
       length_str = lit ''45'', voice = lit ''warm'', callToAction = None,
       audience = lit ''general'', autopilot = True, brandColor = None \<rparr>"

text \<open>Lines of a stream, and the values \<open>JSON.parse\<close> gives for them.\<close>

definition status_line :: jstring where
  \<open>status_line = lit ''{"type":"status","id":"briefing","progress":0.5}''\<close>

definition status_event :: json where
  "status_event =
     JObj [(lit ''type'', JStr (lit ''status'')), (lit ''id'', JStr (lit ''briefing'')),
           (lit ''progress'', JNum (Fin (1 / 2)))]"

definition script_v1_line :: jstring where
  \<open>script_v1_line = lit ''{"type":"asset","artifact":"script","content":"v1"}''\<close>

definition script_v1_event :: json where
  "script_v1_event =
     JObj [(lit ''type'', JStr (lit ''asset'')), (lit ''artifact'', JStr (lit ''script'')),
           (lit ''content'', JStr (lit ''v1''))]"

definition script_v2_line :: jstring where
  \<open>script_v2_line = lit ''{"type":"asset","artifact":"script","content":"v2"}''\<close>

definition script_v2_event :: json where
  "script_v2_event =
     JObj [(lit ''type'', JStr (lit ''asset'')), (lit ''artifact'', JStr (lit ''script'')),
           (lit ''content'', JStr (lit ''v2''))]"

definition overlays_line :: jstring where
  \<open>overlays_line = lit ''{"type":"asset","artifact":"overlays","content":"o"}''\<close>

definition overlays_event :: json where
  "overlays_event =
     JObj [(lit ''type'', JStr (lit ''asset'')), (lit ''artifact'', JStr (lit ''overlays'')),
           (lit ''content'', JStr (lit ''o''))]"

definition ping_line :: jstring where
  \<open>ping_line = lit ''{"type":"ping"}''\<close>

definition ping_event :: json where
  "ping_event = JObj [(lit ''type'', JStr (lit ''ping''))]"

definition broken_line :: jstring where
  \<open>broken_line = lit ''{"type":''\<close>

text \<open>
  A runtime for the examples. Its \<open>JSON_parse\<close> is \<open>JSON.parse\<close> on the lines above:
  the five values, and a SyntaxError for \<open>broken_line\<close>; the examples give it no other
  text. None of their values reaches \<open>ToNumber\<close> or \<open>ToPropertyKey\<close>.
\<close>

definition example_runtime :: js_runtime where
  "example_runtime =
     \<lparr> JSON_parse =
         (\<lambda>line. case map_of [(status_line, status_event), (script_v1_line, script_v1_event),
                                (script_v2_line, script_v2_event),
                                (overlays_line, overlays_event), (ping_line, ping_event)] line of
                    Some v \<Rightarrow> Inr v
                  | None \<Rightarrow> Inl (lit ''Unexpected end of JSON input'')),
       ToNumber = (\<lambda>v. NaN),
       ToPropertyKey = (\<lambda>v. lit ''[object Object]'') \<rparr>"

text \<open>The state of the page before the first submission.\<close>

definition initial_state :: ui_state where
  "initial_state =
     \<lparr> statusFeed = [], assetVault = Map.empty, segments = Some (JArr []),
       result = Some JNull, isGenerating = False, progress = Fin 0, error = None \<rparr>"

section \<open>Properties of the producer\<close>

subsection \<open>The event sequence\<close>

lemma fl_literals:
  "fl (8 / 100) = 5764607523034235 / 72057594037927936"
  "fl (24 / 100) = 1080863910568919 / 4503599627370496"
  "fl (42 / 100) = 7566047373982433 / 18014398509481984"
  "fl (58 / 100) = 5224175567749775 / 9007199254740992"
  "fl (7 / 10) = 3152519739159347 / 4503599627370496"
  "fl (82 / 100) = 7385903388887613 / 9007199254740992"
  "fl (9 / 10) = 8106479329266893 / 9007199254740992"
  "fl (94 / 100) = 2116691824864133 / 2251799813685248"
  "fl (98 / 100) = 2206763817411543 / 2251799813685248"
  by code_simp+

lemma event_types:
  "map event_type (eventSequence payload) =
     [''status'', ''status'', ''asset'', ''status'', ''timeline'', ''status'', ''asset'',
      ''asset'', ''status'', ''result'']"
  by (simp add: eventSequence_def Let_def)

lemma event_progresses:
  "map event_progress (eventSequence payload) =
     [fl (8 / 100), fl (24 / 100), fl (42 / 100), fl (58 / 100), fl (7 / 10), fl (82 / 100),
      fl (9 / 10), fl (94 / 100), fl (98 / 100), 1]"
  by (simp add: eventSequence_def Let_def)

lemma length_eventSequence: "length (eventSequence payload) = 10"
  using arg_cong [OF event_types, of length payload] by simp

lemma POST_valid:
  "ReelRequestSchema_parse j = Inr payload \<Longrightarrow> POST (Some j) = NdjsonStream (eventSequence payload)"
  by (simp add: POST_def)

lemma example_brief_parse: "ReelRequestSchema_parse example_brief = Inr example_payload"
  by (simp add: ReelRequestSchema_parse_def ReelRequestSchema_issues_def example_brief_def
      example_payload_def get_prop_def string_min3_def string_or_undefined_def
      boolean_or_undefined_def string_default_def string_optional_def boolean_default_def lit_def)

text \<open>
  Claim C1. For every brief that passes validation, the producer emits exactly 10 events,
  and their types are, in order, status, status, asset, status, timeline, status, asset,
  asset, status, result.
\<close>
theorem POST_event_types:
  assumes "ReelRequestSchema_parse j = Inr payload"
  shows "\<exists>events. POST (Some j) = NdjsonStream events \<and> length events = 10
           \<and> map event_type events =
               [''status'', ''status'', ''asset'', ''status'', ''timeline'', ''status'',
                ''asset'', ''asset'', ''status'', ''result'']"
  using POST_valid [OF assms] event_types [of payload] length_eventSequence [of payload]
  by simp

text \<open>The brief of the scenario passes validation and gets its ten events.\<close>
theorem POST_event_types_witness:
  "ReelRequestSchema_parse example_brief = Inr example_payload
   \<and> (\<exists>events. POST (Some example_brief) = NdjsonStream events \<and> length events = 10
           \<and> map event_type events =
               [''status'', ''status'', ''asset'', ''status'', ''timeline'', ''status'',
                ''asset'', ''asset'', ''status'', ''result''])"
  using POST_event_types [OF example_brief_parse] example_brief_parse by simp

text \<open>
  Claim C9. For every valid brief, the progress values of the 10 emitted events never
  decrease along the sequence, and the progress of the final (result) event is 1.
\<close>
theorem POST_progress_monotone:
  assumes "ReelRequestSchema_parse j = Inr payload"
  shows "\<exists>events. POST (Some j) = NdjsonStream events \<and> length events = 10
           \<and> sorted (map event_progress events) \<and> event_progress (last events) = 1"
proof -
  have "sorted (map event_progress (eventSequence payload))"
    unfolding event_progresses fl_literals by simp
  moreover have "event_progress (last (eventSequence payload)) = 1"
    by (simp add: eventSequence_def Let_def)
  ultimately show ?thesis
    using POST_valid [OF assms] length_eventSequence [of payload] by simp
qed

text \<open>The same brief, for the progress values.\<close>
theorem POST_progress_monotone_witness:
  "ReelRequestSchema_parse example_brief = Inr example_payload
   \<and> (\<exists>events. POST (Some example_brief) = NdjsonStream events \<and> length events = 10
           \<and> sorted (map event_progress events) \<and> event_progress (last events) = 1)"
  using POST_progress_monotone [OF example_brief_parse] example_brief_parse by simp

subsection \<open>The target duration\<close>

text \<open>
  Claim C5. For every string in the \<open>length\<close> field of the brief, the duration the
  producer uses is \<open>clamp (parseInt length) 15 120\<close> when \<open>parseInt\<close> finds an integer,
  and 45 when it finds none.
\<close>
theorem targetDuration_clamp:
  "targetDuration payload =
     (case parseInt10 (length_str payload) of Some n \<Rightarrow> clamp n 15 120 | None \<Rightarrow> 45)"
  by (simp add: targetDuration_def clamp_def split: option.split)

lemma parseInt10_examples:
  "parseInt10 (lit ''45'') = Some 45"
  "parseInt10 (lit ''500'') = Some 500"
  "parseInt10 (lit ''7'') = Some 7"
  "parseInt10 (lit '' -20s'') = Some (- 20)"
  "parseInt10 (lit ''abc'') = None"
  "parseInt10 [] = None"
  by (simp_all add: parseInt10_def lit_def is_ws_def is_digit_def digit_value_def)

text \<open>
  Six lengths: inside the range, above it, below it, negative with a unit, not a number,
  and empty.
\<close>
theorem targetDuration_clamp_witness:
  "targetDuration example_payload = 45
   \<and> targetDuration (example_payload\<lparr>length_str := lit ''500''\<rparr>) = 120
   \<and> targetDuration (example_payload\<lparr>length_str := lit ''7''\<rparr>) = 15
   \<and> targetDuration (example_payload\<lparr>length_str := lit '' -20s''\<rparr>) = 15
   \<and> targetDuration (example_payload\<lparr>length_str := lit ''abc''\<rparr>) = 45
   \<and> targetDuration (example_payload\<lparr>length_str := []\<rparr>) = 45"
  using targetDuration_clamp [of example_payload]
    targetDuration_clamp [of "example_payload\<lparr>length_str := lit ''500''\<rparr>"]
    targetDuration_clamp [of "example_payload\<lparr>length_str := lit ''7''\<rparr>"]
    targetDuration_clamp [of "example_payload\<lparr>length_str := lit '' -20s''\<rparr>"]
    targetDuration_clamp [of "example_payload\<lparr>length_str := lit ''abc''\<rparr>"]
    targetDuration_clamp [of "example_payload\<lparr>length_str := []\<rparr>"]
  by (simp add: example_payload_def parseInt10_examples clamp_def)

subsection \<open>Validation\<close>

text \<open>
  Claim C8. For every request whose body has no \<open>topic\<close>, or a \<open>topic\<close> string of fewer
  than 3 code units, the producer answers with status 400 and a body whose \<open>error\<close> is
  "Invalid request payload", and no stream of events is started.
\<close>
theorem POST_rejects_short_topic:
  assumes "get_prop j (lit ''topic'') = None \<or>
           (\<exists>s. get_prop j (lit ''topic'') = Some (JStr s) \<and> length s < 3)"
  shows "POST (Some j) =
         JsonResponse 400 (lit ''Invalid request payload'') (ZodError (ReelRequestSchema_issues j))
       \<and> ReelRequestSchema_issues j \<noteq> []
       \<and> (\<forall>events. POST (Some j) \<noteq> NdjsonStream events)"
proof -
  have "string_min3 ''topic'' (get_prop j (lit ''topic'')) \<noteq> []"
    using assms by (auto simp: string_min3_def)
  then have "ReelRequestSchema_issues j \<noteq> []"
    by (cases j) (simp_all add: ReelRequestSchema_issues_def)
  then show ?thesis
    by (simp add: POST_def ReelRequestSchema_parse_def)
qed

lemma issues_examples:
  "ReelRequestSchema_issues (JObj [(lit ''platform'', JStr (lit ''tiktok''))]) = [([''topic''], invalid_type)]"
  "ReelRequestSchema_issues (JObj [(lit ''topic'', JStr (lit ''AI''))]) = [([''topic''], too_small)]"
  by (simp_all add: ReelRequestSchema_issues_def get_prop_def string_min3_def
      string_or_undefined_def boolean_or_undefined_def lit_def)

lemma topic_examples:
  "get_prop (JObj [(lit ''platform'', JStr (lit ''tiktok''))]) (lit ''topic'') = None"
  "get_prop (JObj [(lit ''topic'', JStr (lit ''AI''))]) (lit ''topic'') = Some (JStr (lit ''AI''))"
  "length (lit ''AI'') < 3"
  by (simp_all add: get_prop_def lit_def)

text \<open>A body without a topic, and one whose topic has two code units.\<close>
theorem POST_rejects_short_topic_witness:
  "POST (Some (JObj [(lit ''platform'', JStr (lit ''tiktok''))])) =
     JsonResponse 400 (lit ''Invalid request payload'') (ZodError [([''topic''], invalid_type)])
   \<and> POST (Some (JObj [(lit ''topic'', JStr (lit ''AI''))])) =
     JsonResponse 400 (lit ''Invalid request payload'') (ZodError [([''topic''], too_small)])"
proof -
  have a: "get_prop (JObj [(lit ''platform'', JStr (lit ''tiktok''))]) (lit ''topic'') = None
           \<or> (\<exists>s. get_prop (JObj [(lit ''platform'', JStr (lit ''tiktok''))]) (lit ''topic'') = Some (JStr s) \<and> length s < 3)"
    using topic_examples by simp
  have b: "get_prop (JObj [(lit ''topic'', JStr (lit ''AI''))]) (lit ''topic'') = None
           \<or> (\<exists>s. get_prop (JObj [(lit ''topic'', JStr (lit ''AI''))]) (lit ''topic'') = Some (JStr s) \<and> length s < 3)"
    using topic_examples by simp
  show ?thesis
    using POST_rejects_short_topic [OF a] POST_rejects_short_topic [OF b]
    by (simp add: issues_examples)
qed

subsection \<open>The timeline\<close>

lemma segmentDuration_ge_3: "3 \<le> segmentDuration dur index cursor pct"
  by (auto simp: segmentDuration_def Let_def max_def)

lemma length_timeline_map:
  "length (timeline_map tp dur tn pf index cursor pcts) = length pcts"
  by (induction pcts arbitrary: index cursor) simp_all

lemma start_make_segment [simp]: "start (make_segment tp tn pf index cursor d) = cursor"
  by (simp add: make_segment_def)

lemma duration_make_segment [simp]: "duration (make_segment tp tn pf index cursor d) = d"
  by (simp add: make_segment_def)

lemma timeline_map_first_start:
  "pcts \<noteq> [] \<Longrightarrow> start (timeline_map tp dur tn pf index cursor pcts ! 0) = cursor"
  by (cases pcts) simp_all

lemma timeline_map_next_start:
  "Suc k < length pcts \<Longrightarrow>
   start (timeline_map tp dur tn pf index cursor pcts ! Suc k) =
   start (timeline_map tp dur tn pf index cursor pcts ! k)
   + duration (timeline_map tp dur tn pf index cursor pcts ! k)"
proof (induction pcts arbitrary: index cursor k)
  case Nil
  then show ?case by simp
next
  case (Cons pct rest)
  show ?case
  proof (cases k)
    case 0
    with Cons.prems have "rest \<noteq> []" by auto
    with 0 show ?thesis by (simp add: timeline_map_first_start)
  next
    case (Suc j)
    with Cons.prems have "Suc j < length rest" by simp
    from Cons.IH [OF this] Suc show ?thesis by simp
  qed
qed

lemma timeline_map_duration_ge_3:
  "k < length pcts \<Longrightarrow> 3 \<le> duration (timeline_map tp dur tn pf index cursor pcts ! k)"
proof (induction pcts arbitrary: index cursor k)
  case Nil
  then show ?case by simp
next
  case (Cons pct rest)
  then show ?case by (cases k) (simp_all add: segmentDuration_ge_3)
qed

lemma timeline_map_start_ge:
  "s \<in> set (timeline_map tp dur tn pf index cursor pcts) \<Longrightarrow> cursor \<le> start s"
proof (induction pcts arbitrary: index cursor)
  case Nil
  then show ?case by simp
next
  case (Cons pct rest)
  from Cons.prems consider "s = make_segment tp tn pf index cursor (segmentDuration dur index cursor pct)"
    | "s \<in> set (timeline_map tp dur tn pf (index + 1) (cursor + segmentDuration dur index cursor pct) rest)"
    by auto
  then show ?case
  proof cases
    case 1
    then show ?thesis by simp
  next
    case 2
    from Cons.IH [OF 2] segmentDuration_ge_3 [of dur index cursor pct] show ?thesis by linarith
  qed
qed

lemma sorted_timeline_map:
  "sorted (map start (timeline_map tp dur tn pf index cursor pcts))"
proof (induction pcts arbitrary: index cursor)
  case Nil
  then show ?case by simp
next
  case (Cons pct rest)
  have "cursor \<le> start s"
    if "s \<in> set (timeline_map tp dur tn pf (index + 1) (cursor + segmentDuration dur index cursor pct) rest)" for s
    using timeline_map_start_ge [OF that] segmentDuration_ge_3 [of dur index cursor pct] by linarith
  with Cons.IH show ?case by auto
qed

lemma length_buildTimeline: "length (buildTimeline tp dur tn pf) = 5"
  by (simp add: buildTimeline_def length_timeline_map beatPercents_def)

lemma floor_products_45:
  "Math_floor (fl (45 * fl (18 / 100))) = 8"
  "Math_floor (fl (45 * fl (24 / 100))) = 10"
  "Math_floor (fl (45 * fl (2 / 10))) = 9"
  by code_simp+

lemma buildTimeline_45:
  "map (\<lambda>s. (start s, duration s)) (buildTimeline tp 45 tn pf)
   = [(0, 8), (8, 10), (18, 9), (27, 9), (36, 9)]"
  apply (simp only: buildTimeline_def beatPercents_def timeline_map.simps list.map
      start_make_segment duration_make_segment)
  apply (simp only: segmentDuration_def Let_def beatPercents_def list.size)
  apply (simp only: of_int_numeral floor_products_45)
  apply simp
  done

text \<open>
  Claim C10. For every target duration \<open>D\<close> from 15 to 120, the timeline has exactly 5
  segments, the first starts at 0, each later one starts where the one before it ends,
  and every segment, the last included, lasts at least 3 seconds.
\<close>
theorem buildTimeline_contiguous:
  assumes "15 \<le> D" and "D \<le> 120"
  shows "length (buildTimeline tp D tn pf) = 5
       \<and> start (buildTimeline tp D tn pf ! 0) = 0
       \<and> (\<forall>i<4. start (buildTimeline tp D tn pf ! Suc i) =
                  start (buildTimeline tp D tn pf ! i)
                  + duration (buildTimeline tp D tn pf ! i))
       \<and> (\<forall>i<5. 3 \<le> duration (buildTimeline tp D tn pf ! i))
       \<and> (\<forall>i<4. start (buildTimeline tp D tn pf ! i) < start (buildTimeline tp D tn pf ! Suc i))"
proof -
  have len: "length beatPercents = 5" by (simp add: beatPercents_def)
  have ne: "beatPercents \<noteq> []" by (simp add: beatPercents_def)
  have next_start: "start (timeline_map tp D tn pf 0 0 beatPercents ! Suc i) =
      start (timeline_map tp D tn pf 0 0 beatPercents ! i)
      + duration (timeline_map tp D tn pf 0 0 beatPercents ! i)" if "i < 4" for i
    using that len by (simp add: timeline_map_next_start)
  have dur: "3 \<le> duration (timeline_map tp D tn pf 0 0 beatPercents ! i)" if "i < 5" for i
    using that len by (simp add: timeline_map_duration_ge_3)
  have "start (timeline_map tp D tn pf 0 0 beatPercents ! i)
        < start (timeline_map tp D tn pf 0 0 beatPercents ! Suc i)" if "i < 4" for i
    using next_start [OF that] dur [of i] that by simp
  then show ?thesis
    unfolding buildTimeline_def
    using len next_start dur
    by (simp add: length_timeline_map timeline_map_first_start [OF ne])
qed

text \<open>The timeline for 45 seconds: durations 8, 10, 9, 9, 9 laid end to end.\<close>
theorem buildTimeline_contiguous_witness:
  "(15::int) \<le> 45 \<and> (45::int) \<le> 120
   \<and> length (buildTimeline (lit ''AI studio launch'') 45 (lit ''cinematic'') (lit ''tiktok'')) = 5
   \<and> map (\<lambda>s. (start s, duration s))
         (buildTimeline (lit ''AI studio launch'') 45 (lit ''cinematic'') (lit ''tiktok''))
       = [(0, 8), (8, 10), (18, 9), (27, 9), (36, 9)]"
  using buildTimeline_contiguous [of 45 "lit ''AI studio launch''" "lit ''cinematic''" "lit ''tiktok''"]
    buildTimeline_45 [of "lit ''AI studio launch''" "lit ''cinematic''" "lit ''tiktok''"]
  by simp

text \<open>
  Claim C6. For every target duration \<open>D\<close> from 15 to 120, the segments of the timeline
  have non-decreasing starts, every segment but the last lasts at least 3 seconds, and
  the last segment ends no earlier than the one before it.
\<close>
theorem buildTimeline_ordered:
  assumes "15 \<le> D" and "D \<le> 120"
  shows "length (buildTimeline tp D tn pf) = 5
       \<and> sorted (map start (buildTimeline tp D tn pf))
       \<and> (\<forall>s \<in> set (butlast (buildTimeline tp D tn pf)). 3 \<le> duration s)
       \<and> start (buildTimeline tp D tn pf ! 3)
           + duration (buildTimeline tp D tn pf ! 3)
         \<le> start (last (buildTimeline tp D tn pf))
           + duration (last (buildTimeline tp D tn pf))"
proof -
  let ?segs = "buildTimeline tp D tn pf"
  have len: "length ?segs = 5" by (rule length_buildTimeline)
  have len': "length beatPercents = 5" by (simp add: beatPercents_def)
  have dur: "3 \<le> duration (?segs ! k)" if "k < 5" for k
    unfolding buildTimeline_def using that len' by (simp add: timeline_map_duration_ge_3)
  have "sorted (map start ?segs)"
    unfolding buildTimeline_def by (rule sorted_timeline_map)
  moreover have "3 \<le> duration s" if "s \<in> set (butlast ?segs)" for s
  proof -
    from that have "s \<in> set ?segs" by (rule in_set_butlastD)
    then obtain k where "k < length ?segs" "s = ?segs ! k" by (auto simp: in_set_conv_nth)
    with len dur show ?thesis by simp
  qed
  moreover have "last ?segs = ?segs ! 4"
  proof -
    from len have "?segs \<noteq> []" by auto
    then show ?thesis using len by (simp add: last_conv_nth)
  qed
  moreover have "start (?segs ! 4) = start (?segs ! 3) + duration (?segs ! 3)"
    unfolding buildTimeline_def
    using timeline_map_next_start [of 3 beatPercents tp D tn pf 0 0] len' by simp
  moreover have "3 \<le> duration (?segs ! 4)" by (rule dur) simp
  ultimately show ?thesis using len by simp
qed

text \<open>The same timeline, by its starts and its durations.\<close>
theorem buildTimeline_ordered_witness:
  "(15::int) \<le> 45 \<and> (45::int) \<le> 120
   \<and> sorted (map start (buildTimeline (lit ''AI studio launch'') 45 (lit ''cinematic'') (lit ''tiktok'')))
   \<and> map start (buildTimeline (lit ''AI studio launch'') 45 (lit ''cinematic'') (lit ''tiktok''))
       = [0, 8, 18, 27, 36]
   \<and> map duration (buildTimeline (lit ''AI studio launch'') 45 (lit ''cinematic'') (lit ''tiktok''))
       = [8, 10, 9, 9, 9]"
  using buildTimeline_ordered [of 45 "lit ''AI studio launch''" "lit ''cinematic''" "lit ''tiktok''"]
    arg_cong [OF buildTimeline_45, of "map fst" "lit ''AI studio launch''" "lit ''cinematic''" "lit ''tiktok''"]
    arg_cong [OF buildTimeline_45, of "map snd" "lit ''AI studio launch''" "lit ''cinematic''" "lit ''tiktok''"]
  by (simp add: comp_def)

section \<open>Properties of the consumer\<close>

subsection \<open>Splitting and the read loop\<close>

lemma split_on_not_Nil [simp]: "split_on d xs \<noteq> []"
  by (induction xs) simp_all

lemma split_on_no_delimiter: "d \<notin> set xs \<Longrightarrow> split_on d xs = [xs]"
  by (induction xs) auto

lemma split_on_line: "d \<notin> set l \<Longrightarrow> split_on d (l @ d # rest) = l # split_on d rest"
  by (induction l) auto

lemma split_on_lines:
  "\<forall>l \<in> set ls. d \<notin> set l \<Longrightarrow> split_on d (concat (map (\<lambda>l. l @ [d]) ls)) = ls @ [[]]"
  by (induction ls) (simp_all add: split_on_line)

lemma split_on_append:
  "split_on d (xs @ ys) = butlast (split_on d xs) @ split_on d (last (split_on d xs) @ ys)"
proof (induction xs)
  case Nil
  show ?case by simp
next
  case (Cons c cs)
  show ?case
  proof (cases "c = d")
    case True
    with Cons show ?thesis by simp
  next
    case False
    obtain p ps where sp: "split_on d cs = p # ps"
      by (cases "split_on d cs") simp_all
    show ?thesis
    proof (cases ps)
      case Nil
      with sp False Cons show ?thesis by simp
    next
      case (Cons q qs)
      with sp False Cons.IH show ?thesis by simp
    qed
  qed
qed

lemma last_split_on_no_delimiter: "d \<notin> set (last (split_on d xs))"
proof (induction xs)
  case Nil
  show ?case by simp
next
  case (Cons c cs)
  obtain p ps where sp: "split_on d cs = p # ps"
    by (cases "split_on d cs") simp_all
  with Cons show ?case by (cases ps) auto
qed

lemma process_lines_append:
  "process_lines rt st (xs @ ys) =
     (case process_lines rt st xs of
        (st', None) \<Rightarrow> process_lines rt st' ys
      | (st', Some e) \<Rightarrow> (st', Some e))"
  by (induction xs arbitrary: st) (simp_all split: sum.split)

lemma read_loop_lines:
  assumes "LF \<notin> set buffer"
  shows "fst (fst (read_loop rt st buffer chunks)) =
           fst (process_lines rt st (butlast (split_on LF (buffer @ concat chunks))))
       \<and> snd (read_loop rt st buffer chunks) =
           snd (process_lines rt st (butlast (split_on LF (buffer @ concat chunks))))"
  using assms
proof (induction chunks arbitrary: st buffer)
  case Nil
  then show ?case by (simp add: split_on_no_delimiter)
next
  case (Cons chunk chunks)
  let ?pieces = "split_on LF (buffer @ chunk)"
  have all: "split_on LF (buffer @ concat (chunk # chunks)) =
             butlast ?pieces @ split_on LF (last ?pieces @ concat chunks)"
    using split_on_append [of LF "buffer @ chunk" "concat chunks"] by simp
  have bl: "butlast (split_on LF (buffer @ concat (chunk # chunks))) =
            butlast ?pieces @ butlast (split_on LF (last ?pieces @ concat chunks))"
    unfolding all by (simp add: butlast_append)
  have pop: "pop_or_empty ?pieces = last ?pieces"
    by (simp add: pop_or_empty_def)
  have nolf: "LF \<notin> set (last ?pieces)"
    by (rule last_split_on_no_delimiter)
  obtain st' e where pl: "process_lines rt st (butlast ?pieces) = (st', e)"
    by (cases "process_lines rt st (butlast ?pieces)")
  show ?case
  proof (cases e)
    case None
    with pl Cons.IH [OF nolf, of st'] show ?thesis
      unfolding bl process_lines_append by (simp add: pop)
  next
    case (Some x)
    with pl show ?thesis
      unfolding bl process_lines_append by simp
  qed
qed

lemma read_loop_complete_lines:
  "fst (fst (read_loop rt st [] chunks)) = fst (process_lines rt st (complete_lines chunks))
   \<and> snd (read_loop rt st [] chunks) = snd (process_lines rt st (complete_lines chunks))"
  using read_loop_lines [of "[]" rt st chunks] by (simp add: complete_lines_def)

lemma read_loop_buffer:
  assumes "LF \<notin> set buffer" and "snd (read_loop rt st buffer chunks) = None"
  shows "snd (fst (read_loop rt st buffer chunks)) = last (split_on LF (buffer @ concat chunks))"
  using assms
proof (induction chunks arbitrary: st buffer)
  case Nil
  then show ?case by (simp add: split_on_no_delimiter)
next
  case (Cons chunk chunks)
  let ?pieces = "split_on LF (buffer @ chunk)"
  have all: "split_on LF (buffer @ concat (chunk # chunks)) =
             butlast ?pieces @ split_on LF (last ?pieces @ concat chunks)"
    using split_on_append [of LF "buffer @ chunk" "concat chunks"] by simp
  have pop: "pop_or_empty ?pieces = last ?pieces"
    by (simp add: pop_or_empty_def)
  have nolf: "LF \<notin> set (last ?pieces)"
    by (rule last_split_on_no_delimiter)
  obtain st' e where pl: "process_lines rt st (butlast ?pieces) = (st', e)"
    by (cases "process_lines rt st (butlast ?pieces)")
  show ?case
  proof (cases e)
    case None
    with pl Cons.prems(2) have "snd (read_loop rt st' (last ?pieces) chunks) = None"
      by (simp add: pop)
    from Cons.IH [OF nolf this] pl None show ?thesis
      unfolding all by (simp add: pop)
  next
    case (Some x)
    with pl Cons.prems(2) show ?thesis by simp
  qed
qed

lemma handleGenerate_lines:
  "process_lines rt (reset_state st) (complete_lines chunks) = (st', e) \<Longrightarrow>
   handleGenerate rt st (Some chunks) =
     (case e of None \<Rightarrow> st'\<lparr>isGenerating := False\<rparr>
      | Some x \<Rightarrow> st'\<lparr>error := Some x, isGenerating := False\<rparr>)"
  using read_loop_complete_lines [of rt "reset_state st" chunks]
  by (cases "read_loop rt (reset_state st) [] chunks")
     (auto simp: handleGenerate_def split: option.split)

subsection \<open>The example lines\<close>

lemma example_lines_distinct:
  "status_line \<noteq> script_v1_line" "status_line \<noteq> script_v2_line" "status_line \<noteq> overlays_line"
  "status_line \<noteq> ping_line" "script_v1_line \<noteq> script_v2_line" "script_v1_line \<noteq> overlays_line"
  "script_v1_line \<noteq> ping_line" "script_v2_line \<noteq> overlays_line" "script_v2_line \<noteq> ping_line"
  "overlays_line \<noteq> ping_line" "broken_line \<noteq> status_line" "broken_line \<noteq> script_v1_line"
  "broken_line \<noteq> script_v2_line" "broken_line \<noteq> overlays_line" "broken_line \<noteq> ping_line"
  by (simp_all add: status_line_def script_v1_line_def script_v2_line_def overlays_line_def
      ping_line_def broken_line_def lit_def)

lemma example_parse:
  "JSON_parse example_runtime status_line = Inr status_event"
  "JSON_parse example_runtime script_v1_line = Inr script_v1_event"
  "JSON_parse example_runtime script_v2_line = Inr script_v2_event"
  "JSON_parse example_runtime overlays_line = Inr overlays_event"
  "JSON_parse example_runtime ping_line = Inr ping_event"
  "JSON_parse example_runtime broken_line = Inl (lit ''Unexpected end of JSON input'')"
  using example_lines_distinct by (simp_all add: example_runtime_def)

lemma example_lines_not_blank:
  "trim status_line \<noteq> []" "trim script_v1_line \<noteq> []" "trim script_v2_line \<noteq> []"
  "trim overlays_line \<noteq> []" "trim ping_line \<noteq> []" "trim broken_line \<noteq> []"
  by (simp_all add: trim_def status_line_def script_v1_line_def script_v2_line_def
      overlays_line_def ping_line_def broken_line_def lit_def is_ws_def)

lemma example_lines_no_LF:
  "LF \<notin> set status_line" "LF \<notin> set script_v1_line" "LF \<notin> set script_v2_line"
  "LF \<notin> set overlays_line" "LF \<notin> set ping_line" "LF \<notin> set broken_line"
  by (simp_all add: LF_def status_line_def script_v1_line_def script_v2_line_def
      overlays_line_def ping_line_def broken_line_def lit_def)

lemma example_types:
  "get_prop status_event (lit ''type'') = Some (JStr (lit ''status''))"
  "get_prop script_v1_event (lit ''type'') = Some (JStr (lit ''asset''))"
  "get_prop script_v2_event (lit ''type'') = Some (JStr (lit ''asset''))"
  "get_prop overlays_event (lit ''type'') = Some (JStr (lit ''asset''))"
  "get_prop ping_event (lit ''type'') = Some (JStr (lit ''ping''))"
  by (simp_all add: get_prop_def status_event_def script_v1_event_def script_v2_event_def
      overlays_event_def ping_event_def)

lemma example_artifacts:
  "get_prop script_v1_event (lit ''artifact'') = Some (JStr (lit ''script''))"
  "get_prop script_v2_event (lit ''artifact'') = Some (JStr (lit ''script''))"
  "get_prop overlays_event (lit ''artifact'') = Some (JStr (lit ''overlays''))"
  by (simp_all add: get_prop_def script_v1_event_def script_v2_event_def overlays_event_def lit_def)

lemma example_progress:
  "get_prop status_event (lit ''progress'') = Some (JNum (Fin (1 / 2)))"
  "get_prop script_v1_event (lit ''progress'') = None"
  "get_prop script_v2_event (lit ''progress'') = None"
  "get_prop overlays_event (lit ''progress'') = None"
  "get_prop ping_event (lit ''progress'') = None"
  by (simp_all add: get_prop_def status_event_def script_v1_event_def script_v2_event_def
      overlays_event_def ping_event_def lit_def)

lemma type_names_distinct:
  "lit ''status'' \<noteq> lit ''asset''" "lit ''status'' \<noteq> lit ''timeline''" "lit ''status'' \<noteq> lit ''result''"
  "lit ''asset'' \<noteq> lit ''timeline''" "lit ''asset'' \<noteq> lit ''result''" "lit ''timeline'' \<noteq> lit ''result''"
  "lit ''ping'' \<noteq> lit ''status''" "lit ''ping'' \<noteq> lit ''asset''" "lit ''ping'' \<noteq> lit ''timeline''"
  "lit ''ping'' \<noteq> lit ''result''" "lit ''script'' \<noteq> lit ''overlays''"
  by (simp_all add: lit_def)

lemma not_null:
  "status_event \<noteq> JNull" "script_v1_event \<noteq> JNull" "script_v2_event \<noteq> JNull"
  "overlays_event \<noteq> JNull" "ping_event \<noteq> JNull"
  by (simp_all add: status_event_def script_v1_event_def script_v2_event_def
      overlays_event_def ping_event_def)

lemma ping_kvs: "ping_event = JObj [(lit ''type'', JStr (lit ''ping''))]"
  by (simp add: ping_event_def)

lemma apply_example_lines:
  "apply_line example_runtime st status_line =
     Inr (st\<lparr>progress := Math_max (progress st) (Fin (1 / 2)),
             statusFeed := statusFeed st @ [status_event]\<rparr>)"
  "apply_line example_runtime st script_v1_line =
     Inr (st\<lparr>progress := Math_max (progress st) (progress st),
             assetVault := (assetVault st)(lit ''script'' \<mapsto> script_v1_event)\<rparr>)"
  "apply_line example_runtime st script_v2_line =
     Inr (st\<lparr>progress := Math_max (progress st) (progress st),
             assetVault := (assetVault st)(lit ''script'' \<mapsto> script_v2_event)\<rparr>)"
  "apply_line example_runtime st overlays_line =
     Inr (st\<lparr>progress := Math_max (progress st) (progress st),
             assetVault := (assetVault st)(lit ''overlays'' \<mapsto> overlays_event)\<rparr>)"
  "apply_line example_runtime st ping_line =
     Inr (st\<lparr>progress := Math_max (progress st) (progress st)\<rparr>)"
  "apply_line example_runtime st broken_line =
     Inl (SyntaxError (lit ''Unexpected end of JSON input''))"
  using type_names_distinct
  by (simp_all add: apply_line_def apply_payload_def example_parse example_lines_not_blank
      example_types example_artifacts example_progress not_null to_number_def
      to_property_key_def Let_def)

lemma Math_max_examples:
  "Math_max (Fin 0) (Fin (1 / 2)) = Fin (1 / 2)"
  "Math_max (Fin 0) (Fin 0) = Fin 0"
  "Math_max (Fin (1 / 2)) (Fin (1 / 2)) = Fin (1 / 2)"
  by simp_all

lemma reset_initial: "reset_state initial_state = initial_state\<lparr>isGenerating := True\<rparr>"
  by (simp add: reset_state_def initial_state_def)

lemma streaming_fields:
  "progress (initial_state\<lparr>isGenerating := True\<rparr>) = Fin 0"
  "statusFeed (initial_state\<lparr>isGenerating := True\<rparr>) = []"
  "assetVault (initial_state\<lparr>isGenerating := True\<rparr>) = Map.empty"
  by (simp_all add: initial_state_def)

lemma initial_fields:
  "progress initial_state = Fin 0" "statusFeed initial_state = []"
  "assetVault initial_state = Map.empty"
  by (simp_all add: initial_state_def)

lemma complete_lines_example:
  assumes "\<forall>l \<in> set ls. LF \<notin> set l"
  shows "complete_lines [concat (map (\<lambda>l. l @ [LF]) ls)] = ls"
  using split_on_lines [OF assms] by (simp add: complete_lines_def)

subsection \<open>Lines across chunks\<close>

text \<open>
  Claim C2. The line splitter of the read loop (append the chunk to the buffer, split at
  line feeds, process every piece but the last, keep the last piece as the buffer):
  a line that arrives cut into two chunks at any place is put together and processed
  exactly once, as the \<open>for\<close> loop over that one line; and a chunk of several complete
  lines has every one of them processed, in order. Both leave an empty buffer.
\<close>
theorem read_loop_reassembles_lines:
  "(LF \<notin> set l \<longrightarrow> a @ b = l @ [LF] \<longrightarrow>
      read_loop rt st [] [a, b] =
        (case process_lines rt st [l] of (st', e) \<Rightarrow> ((st', []), e)))
   \<and> ((\<forall>l \<in> set ls. LF \<notin> set l) \<longrightarrow>
      read_loop rt st [] [concat (map (\<lambda>l. l @ [LF]) ls)] =
        (case process_lines rt st ls of (st', e) \<Rightarrow> ((st', []), e)))"
proof (intro conjI impI)
  assume nolf: "LF \<notin> set l" and ab: "a @ b = l @ [LF]"
  have whole: "split_on LF (l @ [LF]) = [l, []]"
    using split_on_line [OF nolf, of "[]"] by simp
  obtain st' e where pl: "process_lines rt st [l] = (st', e)"
    by (cases "process_lines rt st [l]")
  show "read_loop rt st [] [a, b] = (case process_lines rt st [l] of (st', e) \<Rightarrow> ((st', []), e))"
  proof (cases "b = []")
    case True
    with ab have a: "a = l @ [LF]" by simp
    show ?thesis
      using pl unfolding True a
      by (cases e) (simp_all add: whole pop_or_empty_def)
  next
    case False
    then obtain b' where b: "b = b' @ [LF]" and l: "l = a @ b'"
      using ab by (cases b rule: rev_cases) auto
    from nolf l have "LF \<notin> set a" by simp
    then have sa: "split_on LF a = [a]" by (rule split_on_no_delimiter)
    have sab: "split_on LF (a @ b) = [l, []]"
      using whole ab by simp
    show ?thesis
      using pl by (cases e) (simp_all add: sa sab pop_or_empty_def)
  qed
next
  assume nolf: "\<forall>l \<in> set ls. LF \<notin> set l"
  have sp: "split_on LF (concat (map (\<lambda>l. l @ [LF]) ls)) = ls @ [[]]"
    using nolf by (rule split_on_lines)
  obtain st' e where pl: "process_lines rt st ls = (st', e)"
    by (cases "process_lines rt st ls")
  show "read_loop rt st [] [concat (map (\<lambda>l. l @ [LF]) ls)] =
        (case process_lines rt st ls of (st', e) \<Rightarrow> ((st', []), e))"
    using pl by (cases e) (simp_all add: sp pop_or_empty_def)
qed

text \<open>
  A status line cut after its tenth code unit, and one chunk of three complete lines.
\<close>
theorem read_loop_reassembles_lines_witness:
  "LF \<notin> set status_line
   \<and> take 10 status_line @ (drop 10 status_line @ [LF]) = status_line @ [LF]
   \<and> read_loop example_runtime initial_state [] [take 10 status_line, drop 10 status_line @ [LF]] =
       ((initial_state\<lparr>progress := Fin (1 / 2), statusFeed := [status_event]\<rparr>, []), None)
   \<and> read_loop example_runtime initial_state []
         [concat (map (\<lambda>l. l @ [LF]) [status_line, script_v1_line, script_v2_line])] =
       ((initial_state\<lparr>progress := Fin (1 / 2), statusFeed := [status_event],
                        assetVault := [lit ''script'' \<mapsto> script_v2_event]\<rparr>, []), None)"
proof -
  have split: "take 10 status_line @ (drop 10 status_line @ [LF]) = status_line @ [LF]"
    by simp
  have all: "\<forall>l \<in> set [status_line, script_v1_line, script_v2_line]. LF \<notin> set l"
    using example_lines_no_LF by simp
  have init: "progress initial_state = Fin 0" "statusFeed initial_state = []"
    "assetVault initial_state = Map.empty"
    by (simp_all add: initial_state_def)
  note inst = read_loop_reassembles_lines
    [of status_line "take 10 status_line" "drop 10 status_line @ [LF]" example_runtime initial_state
        "[status_line, script_v1_line, script_v2_line]"]
  have one: "process_lines example_runtime initial_state [status_line] =
      (initial_state\<lparr>progress := Fin (1 / 2), statusFeed := [status_event]\<rparr>, None)"
    by (simp add: apply_example_lines init Math_max_examples)
  have three: "process_lines example_runtime initial_state [status_line, script_v1_line, script_v2_line] =
      (initial_state\<lparr>progress := Fin (1 / 2), statusFeed := [status_event],
                       assetVault := [lit ''script'' \<mapsto> script_v2_event]\<rparr>, None)"
    by (simp add: apply_example_lines init Math_max_examples)
  show ?thesis
    using inst [THEN conjunct1, THEN mp, THEN mp, OF example_lines_no_LF(1) split]
      inst [THEN conjunct2, THEN mp, OF all]
      example_lines_no_LF(1) split
    unfolding one three by simp
qed

subsection \<open>Lines that are not events\<close>

text \<open>
  Claim C3, amended. For every complete line that is not blank: if \<open>JSON.parse\<close>
  throws on it, the page shows the error and folds no later line of the stream into its
  state. A line that parses to an object whose \<open>type\<close> is none of status, asset,
  timeline and result sets no error and does not stop the stream: it changes at most
  \<open>progress\<close>, and the lines after it are processed.
\<close>
theorem invalid_json_stops_stream:
  "(complete_lines chunks = pre @ l # post \<longrightarrow>
    process_lines rt (reset_state st) pre = (st', None) \<longrightarrow>
    trim l \<noteq> [] \<longrightarrow> JSON_parse rt l = Inl message \<longrightarrow>
      handleGenerate rt st (Some chunks) =
        st'\<lparr>error := Some (SyntaxError message), isGenerating := False\<rparr>)
   \<and> (trim l \<noteq> [] \<longrightarrow> JSON_parse rt l = Inr (JObj kvs) \<longrightarrow>
      map_of kvs (lit ''type'') \<noteq> Some (JStr (lit ''status'')) \<longrightarrow>
      map_of kvs (lit ''type'') \<noteq> Some (JStr (lit ''asset'')) \<longrightarrow>
      map_of kvs (lit ''type'') \<noteq> Some (JStr (lit ''timeline'')) \<longrightarrow>
      map_of kvs (lit ''type'') \<noteq> Some (JStr (lit ''result'')) \<longrightarrow>
      (\<exists>p. apply_line rt st l = Inr (st\<lparr>progress := p\<rparr>)
           \<and> process_lines rt st (l # rest) = process_lines rt (st\<lparr>progress := p\<rparr>) rest))"
proof (intro conjI impI)
  assume lines: "complete_lines chunks = pre @ l # post"
    and pre: "process_lines rt (reset_state st) pre = (st', None)"
    and nb: "trim l \<noteq> []" and bad: "JSON_parse rt l = Inl message"
  from nb bad have "apply_line rt st' l = Inl (SyntaxError message)"
    by (simp add: apply_line_def)
  then have "process_lines rt st' (l # post) = (st', Some (SyntaxError message))"
    by simp
  with pre have "process_lines rt (reset_state st) (complete_lines chunks) =
      (st', Some (SyntaxError message))"
    unfolding lines process_lines_append by simp
  from handleGenerate_lines [OF this]
  show "handleGenerate rt st (Some chunks) =
        st'\<lparr>error := Some (SyntaxError message), isGenerating := False\<rparr>"
    by simp
next
  assume nb: "trim l \<noteq> []" and ok: "JSON_parse rt l = Inr (JObj kvs)"
    and "map_of kvs (lit ''type'') \<noteq> Some (JStr (lit ''status''))"
    and "map_of kvs (lit ''type'') \<noteq> Some (JStr (lit ''asset''))"
    and "map_of kvs (lit ''type'') \<noteq> Some (JStr (lit ''timeline''))"
    and "map_of kvs (lit ''type'') \<noteq> Some (JStr (lit ''result''))"
  then have "apply_line rt st l =
      Inr (st\<lparr>progress := Math_max (progress st)
                (case map_of kvs (lit ''progress'') of
                   None \<Rightarrow> progress st
                 | Some JNull \<Rightarrow> progress st
                 | Some v \<Rightarrow> to_number rt v)\<rparr>)"
    by (simp add: apply_line_def apply_payload_def get_prop_def Let_def)
  then obtain p where p: "apply_line rt st l = Inr (st\<lparr>progress := p\<rparr>)" ..
  then have "process_lines rt st (l # rest) = process_lines rt (st\<lparr>progress := p\<rparr>) rest"
    by simp
  with p show "\<exists>p. apply_line rt st l = Inr (st\<lparr>progress := p\<rparr>)
           \<and> process_lines rt st (l # rest) = process_lines rt (st\<lparr>progress := p\<rparr>) rest"
    by blast
qed

text \<open>
  A stream whose second line is cut-off JSON: the status line before it is shown, the
  asset line after it is not. And a line of type ping, followed by a status line.
\<close>
theorem invalid_json_stops_stream_witness:
  "complete_lines [concat (map (\<lambda>l. l @ [LF]) [status_line, broken_line, script_v1_line])] =
     [status_line] @ broken_line # [script_v1_line]
   \<and> trim broken_line \<noteq> []
   \<and> JSON_parse example_runtime broken_line = Inl (lit ''Unexpected end of JSON input'')
   \<and> handleGenerate example_runtime initial_state
        (Some [concat (map (\<lambda>l. l @ [LF]) [status_line, broken_line, script_v1_line])]) =
       initial_state\<lparr>progress := Fin (1 / 2), statusFeed := [status_event],
                      error := Some (SyntaxError (lit ''Unexpected end of JSON input'')),
                      isGenerating := False\<rparr>
   \<and> trim ping_line \<noteq> []
   \<and> JSON_parse example_runtime ping_line = Inr (JObj [(lit ''type'', JStr (lit ''ping''))])
   \<and> apply_line example_runtime initial_state ping_line = Inr initial_state
   \<and> process_lines example_runtime initial_state [ping_line, status_line] =
       (initial_state\<lparr>progress := Fin (1 / 2), statusFeed := [status_event]\<rparr>, None)"
proof -
  have nolf: "\<forall>l \<in> set [status_line, broken_line, script_v1_line]. LF \<notin> set l"
    using example_lines_no_LF by simp
  have cl: "complete_lines [concat (map (\<lambda>l. l @ [LF]) [status_line, broken_line, script_v1_line])] =
      [status_line] @ broken_line # [script_v1_line]"
    using complete_lines_example [OF nolf] by simp
  have pre: "process_lines example_runtime (reset_state initial_state) [status_line] =
      (initial_state\<lparr>isGenerating := True, progress := Fin (1 / 2), statusFeed := [status_event]\<rparr>, None)"
    by (simp add: reset_initial apply_example_lines streaming_fields initial_fields)
  have ty: "map_of [(lit ''type'', JStr (lit ''ping''))] (lit ''type'') \<noteq> Some (JStr (lit ''status''))"
    "map_of [(lit ''type'', JStr (lit ''ping''))] (lit ''type'') \<noteq> Some (JStr (lit ''asset''))"
    "map_of [(lit ''type'', JStr (lit ''ping''))] (lit ''type'') \<noteq> Some (JStr (lit ''timeline''))"
    "map_of [(lit ''type'', JStr (lit ''ping''))] (lit ''type'') \<noteq> Some (JStr (lit ''result''))"
    using type_names_distinct by simp_all
  have pp: "JSON_parse example_runtime ping_line = Inr (JObj [(lit ''type'', JStr (lit ''ping''))])"
    using example_parse(5) by (simp add: ping_kvs)
  note inst = invalid_json_stops_stream
    [of "[concat (map (\<lambda>l. l @ [LF]) [status_line, broken_line, script_v1_line])]"
        "[status_line]" broken_line "[script_v1_line]" example_runtime initial_state
        "initial_state\<lparr>isGenerating := True, progress := Fin (1 / 2), statusFeed := [status_event]\<rparr>"
        "lit ''Unexpected end of JSON input''"]
  note inst2 = invalid_json_stops_stream
    [where l = ping_line and rt = example_runtime and st = initial_state
       and kvs = "[(lit ''type'', JStr (lit ''ping''))]" and rest = "[status_line]"]
  have a: "handleGenerate example_runtime initial_state
        (Some [concat (map (\<lambda>l. l @ [LF]) [status_line, broken_line, script_v1_line])]) =
       initial_state\<lparr>progress := Fin (1 / 2), statusFeed := [status_event],
                      error := Some (SyntaxError (lit ''Unexpected end of JSON input'')),
                      isGenerating := False\<rparr>"
    using inst [THEN conjunct1, THEN mp, THEN mp, THEN mp, THEN mp, OF cl pre
        example_lines_not_blank(6) example_parse(6)]
    by (simp add: initial_state_def)
  have init: "progress initial_state = Fin 0" "statusFeed initial_state = []"
    by (simp_all add: initial_state_def)
  have b: "apply_line example_runtime initial_state ping_line = Inr initial_state
      \<and> process_lines example_runtime initial_state [ping_line, status_line] =
       (initial_state\<lparr>progress := Fin (1 / 2), statusFeed := [status_event]\<rparr>, None)"
    using inst2 [THEN conjunct2, THEN mp, THEN mp, THEN mp, THEN mp, THEN mp, THEN mp,
        OF example_lines_not_blank(5) pp ty]
    by (simp add: apply_example_lines init initial_state_def)
  show ?thesis
    using cl example_lines_not_blank(6) example_parse(6) a example_lines_not_blank(5) pp b
    by blast
qed

text \<open>
  Claim C3 as stated fails: the line \<open>{"type":"ping"}\<close> is processed, its type is none
  of the four, and yet the page shows no error and goes on to fold the status line that
  follows it.
\<close>
theorem unknown_type_counterexample:
  "trim ping_line \<noteq> []
   \<and> JSON_parse example_runtime ping_line = Inr ping_event
   \<and> get_prop ping_event (lit ''type'') = Some (JStr (lit ''ping''))
   \<and> lit ''ping'' \<noteq> lit ''status'' \<and> lit ''ping'' \<noteq> lit ''asset''
   \<and> lit ''ping'' \<noteq> lit ''timeline'' \<and> lit ''ping'' \<noteq> lit ''result''
   \<and> complete_lines [ping_line @ [LF] @ status_line @ [LF]] = [ping_line, status_line]
   \<and> error (handleGenerate example_runtime initial_state
        (Some [ping_line @ [LF] @ status_line @ [LF]])) = None
   \<and> statusFeed (handleGenerate example_runtime initial_state
        (Some [ping_line @ [LF] @ status_line @ [LF]])) = [status_event]"
proof -
  have nolf: "\<forall>l \<in> set [ping_line, status_line]. LF \<notin> set l"
    using example_lines_no_LF by simp
  have cl: "complete_lines [ping_line @ [LF] @ status_line @ [LF]] = [ping_line, status_line]"
    using complete_lines_example [OF nolf] by simp
  have pl: "process_lines example_runtime (reset_state initial_state) [ping_line, status_line] =
      (initial_state\<lparr>isGenerating := True, progress := Fin (1 / 2), statusFeed := [status_event]\<rparr>, None)"
    by (simp add: reset_initial apply_example_lines streaming_fields initial_fields)
  have "handleGenerate example_runtime initial_state (Some [ping_line @ [LF] @ status_line @ [LF]]) =
        initial_state\<lparr>isGenerating := True, progress := Fin (1 / 2), statusFeed := [status_event],
                       isGenerating := False\<rparr>"
    using handleGenerate_lines [of example_runtime initial_state
        "[ping_line @ [LF] @ status_line @ [LF]]", unfolded cl, OF pl]
    by simp
  then have "error (handleGenerate example_runtime initial_state
        (Some [ping_line @ [LF] @ status_line @ [LF]])) = None"
    and "statusFeed (handleGenerate example_runtime initial_state
        (Some [ping_line @ [LF] @ status_line @ [LF]])) = [status_event]"
    by (simp_all add: initial_state_def)
  then show ?thesis
    using cl example_lines_not_blank(5) example_parse(5) example_types(5) type_names_distinct
    by blast
qed

subsection \<open>A stream that ends early\<close>

lemma apply_payload_keeps:
  "apply_payload rt st payload = Inr st' \<Longrightarrow>
   error st' = error st \<and> isGenerating st' = isGenerating st"
  by (auto simp: apply_payload_def Let_def split: if_splits)

lemma apply_payload_keeps_result:
  "apply_payload rt st payload = Inr st' \<Longrightarrow>
   get_prop payload (lit ''type'') \<noteq> Some (JStr (lit ''result'')) \<Longrightarrow> result st' = result st"
  by (auto simp: apply_payload_def Let_def split: if_splits)

lemma apply_line_keeps:
  "apply_line rt st l = Inr st' \<Longrightarrow> error st' = error st \<and> isGenerating st' = isGenerating st"
  by (auto simp: apply_line_def split: if_splits sum.splits dest: apply_payload_keeps)

lemma apply_line_keeps_result:
  "apply_line rt st l = Inr st' \<Longrightarrow>
   \<forall>p. JSON_parse rt l = Inr p \<longrightarrow> get_prop p (lit ''type'') \<noteq> Some (JStr (lit ''result'')) \<Longrightarrow>
   result st' = result st"
  by (auto simp: apply_line_def split: if_splits sum.splits dest: apply_payload_keeps_result)

lemma process_lines_keeps:
  "process_lines rt st ls = (st', e) \<Longrightarrow> error st' = error st \<and> isGenerating st' = isGenerating st"
proof (induction ls arbitrary: st)
  case Nil
  then show ?case by simp
next
  case (Cons l ls)
  show ?case
  proof (cases "apply_line rt st l")
    case (Inl x)
    with Cons.prems show ?thesis by simp
  next
    case (Inr st1)
    with Cons.prems have "process_lines rt st1 ls = (st', e)" by simp
    from Cons.IH [OF this] apply_line_keeps [OF Inr] show ?thesis by simp
  qed
qed

lemma process_lines_keeps_result:
  "process_lines rt st ls = (st', e) \<Longrightarrow>
   \<forall>l \<in> set ls. \<forall>p. JSON_parse rt l = Inr p \<longrightarrow> get_prop p (lit ''type'') \<noteq> Some (JStr (lit ''result'')) \<Longrightarrow>
   result st' = result st"
proof (induction ls arbitrary: st)
  case Nil
  then show ?case by simp
next
  case (Cons l ls)
  show ?case
  proof (cases "apply_line rt st l")
    case (Inl x)
    with Cons.prems show ?thesis by simp
  next
    case (Inr st1)
    with Cons.prems have "process_lines rt st1 ls = (st', e)" by simp
    moreover from Cons.prems have "\<forall>l \<in> set ls. \<forall>p. JSON_parse rt l = Inr p \<longrightarrow>
        get_prop p (lit ''type'') \<noteq> Some (JStr (lit ''result''))" by simp
    ultimately have "result st' = result st1" by (rule Cons.IH)
    moreover from Cons.prems have "\<forall>p. JSON_parse rt l = Inr p \<longrightarrow>
        get_prop p (lit ''type'') \<noteq> Some (JStr (lit ''result''))" by simp
    with Inr have "result st1 = result st" by (rule apply_line_keeps_result)
    ultimately show ?thesis by simp
  qed
qed

text \<open>
  Claim C4. If the read loop ends on \<open>done\<close> after some events, none of them a result
  event, then the page leaves the loading state with no error, \<open>result\<close> is still unset
  (null), and the status feed, the asset vault and the segments are the ones the loop
  reached, which are the ones the received lines produce.
\<close>
theorem short_stream_completes:
  assumes "read_loop rt (reset_state st) [] chunks = ((st', buffer), None)"
    and "\<forall>l \<in> set (complete_lines chunks). \<forall>p. JSON_parse rt l = Inr p \<longrightarrow>
           get_prop p (lit ''type'') \<noteq> Some (JStr (lit ''result''))"
  shows "process_lines rt (reset_state st) (complete_lines chunks) = (st', None)
       \<and> handleGenerate rt st (Some chunks) = st'\<lparr>isGenerating := False\<rparr>
       \<and> isGenerating (handleGenerate rt st (Some chunks)) = False
       \<and> error (handleGenerate rt st (Some chunks)) = None
       \<and> result (handleGenerate rt st (Some chunks)) = Some JNull
       \<and> statusFeed (handleGenerate rt st (Some chunks)) = statusFeed st'
       \<and> assetVault (handleGenerate rt st (Some chunks)) = assetVault st'
       \<and> segments (handleGenerate rt st (Some chunks)) = segments st'"
proof -
  have pl: "process_lines rt (reset_state st) (complete_lines chunks) = (st', None)"
    using read_loop_complete_lines [of rt "reset_state st" chunks] assms(1)
    by (cases "process_lines rt (reset_state st) (complete_lines chunks)") simp
  have h: "handleGenerate rt st (Some chunks) = st'\<lparr>isGenerating := False\<rparr>"
    using handleGenerate_lines [OF pl] by simp
  have "error st' = error (reset_state st)"
    using process_lines_keeps [OF pl] by simp
  then have e: "error st' = None" by (simp add: reset_state_def)
  have "result st' = result (reset_state st)"
    using pl assms(2) by (rule process_lines_keeps_result)
  then have r: "result st' = Some JNull" by (simp add: reset_state_def)
  show ?thesis unfolding h using pl e r by simp
qed

text \<open>
  Three events in three reads that do not end at the line ends; no result event.
\<close>
theorem short_stream_completes_witness:
  "read_loop example_runtime (reset_state initial_state) []
     [take 20 status_line, drop 20 status_line @ [LF] @ script_v1_line @ [LF],
      overlays_line @ [LF]] =
     ((initial_state\<lparr>isGenerating := True, progress := Fin (1 / 2), statusFeed := [status_event],
                      assetVault := [lit ''script'' \<mapsto> script_v1_event,
                                     lit ''overlays'' \<mapsto> overlays_event]\<rparr>, []), None)
   \<and> complete_lines [take 20 status_line, drop 20 status_line @ [LF] @ script_v1_line @ [LF],
                   overlays_line @ [LF]] = [status_line, script_v1_line, overlays_line]
   \<and> handleGenerate example_runtime initial_state
        (Some [take 20 status_line, drop 20 status_line @ [LF] @ script_v1_line @ [LF],
               overlays_line @ [LF]]) =
       initial_state\<lparr>progress := Fin (1 / 2), statusFeed := [status_event],
                      assetVault := [lit ''script'' \<mapsto> script_v1_event,
                                     lit ''overlays'' \<mapsto> overlays_event]\<rparr>
   \<and> isGenerating (handleGenerate example_runtime initial_state
        (Some [take 20 status_line, drop 20 status_line @ [LF] @ script_v1_line @ [LF],
               overlays_line @ [LF]])) = False
   \<and> error (handleGenerate example_runtime initial_state
        (Some [take 20 status_line, drop 20 status_line @ [LF] @ script_v1_line @ [LF],
               overlays_line @ [LF]])) = None
   \<and> result (handleGenerate example_runtime initial_state
        (Some [take 20 status_line, drop 20 status_line @ [LF] @ script_v1_line @ [LF],
               overlays_line @ [LF]])) = Some JNull"
proof -
  let ?chunks = "[take 20 status_line, drop 20 status_line @ [LF] @ script_v1_line @ [LF],
                  overlays_line @ [LF]]"
  have nolf: "\<forall>l \<in> set [status_line, script_v1_line, overlays_line]. LF \<notin> set l"
    using example_lines_no_LF by simp
  have cc: "concat ?chunks =
      status_line @ [LF] @ script_v1_line @ [LF] @ overlays_line @ [LF]"
    using append_take_drop_id [of 20 status_line]
    by (simp add: append_assoc [symmetric] del: append_assoc append_take_drop_id)
  have sp: "split_on LF (status_line @ [LF] @ script_v1_line @ [LF] @ overlays_line @ [LF]) =
      [status_line, script_v1_line, overlays_line, []]"
    using split_on_lines [OF nolf] by simp
  have cl: "complete_lines ?chunks = [status_line, script_v1_line, overlays_line]"
    unfolding complete_lines_def cc sp by simp
  have pl: "process_lines example_runtime (reset_state initial_state) (complete_lines ?chunks) =
      (initial_state\<lparr>isGenerating := True, progress := Fin (1 / 2), statusFeed := [status_event],
                      assetVault := [lit ''script'' \<mapsto> script_v1_event,
                                     lit ''overlays'' \<mapsto> overlays_event]\<rparr>, None)"
    unfolding cl
    by (simp add: reset_initial apply_example_lines streaming_fields initial_fields)
  have nores: "\<forall>l \<in> set (complete_lines ?chunks). \<forall>p. JSON_parse example_runtime l = Inr p \<longrightarrow>
      get_prop p (lit ''type'') \<noteq> Some (JStr (lit ''result''))"
    unfolding cl using type_names_distinct by (auto simp: example_parse example_types)
  have none: "snd (read_loop example_runtime (reset_state initial_state) [] ?chunks) = None"
    using read_loop_complete_lines [of example_runtime "reset_state initial_state" ?chunks] pl
    by simp
  have "snd (fst (read_loop example_runtime (reset_state initial_state) [] ?chunks)) =
      last (split_on LF ([] @ concat ?chunks))"
    using none by (intro read_loop_buffer) simp_all
  then have buf: "snd (fst (read_loop example_runtime (reset_state initial_state) [] ?chunks)) = []"
    unfolding append_Nil cc sp by simp
  have rl: "read_loop example_runtime (reset_state initial_state) [] ?chunks =
      ((initial_state\<lparr>isGenerating := True, progress := Fin (1 / 2), statusFeed := [status_event],
                       assetVault := [lit ''script'' \<mapsto> script_v1_event,
                                      lit ''overlays'' \<mapsto> overlays_event]\<rparr>, []), None)"
    using read_loop_complete_lines [of example_runtime "reset_state initial_state" ?chunks] pl buf
    by (cases "read_loop example_runtime (reset_state initial_state) [] ?chunks") auto
  note inst = short_stream_completes [OF rl nores]
  have h: "handleGenerate example_runtime initial_state (Some ?chunks) =
       initial_state\<lparr>progress := Fin (1 / 2), statusFeed := [status_event],
                      assetVault := [lit ''script'' \<mapsto> script_v1_event,
                                     lit ''overlays'' \<mapsto> overlays_event]\<rparr>"
    using inst [THEN conjunct2, THEN conjunct1] by (simp add: initial_state_def)
  from inst have rest: "isGenerating (handleGenerate example_runtime initial_state (Some ?chunks)) = False"
    "error (handleGenerate example_runtime initial_state (Some ?chunks)) = None"
    "result (handleGenerate example_runtime initial_state (Some ?chunks)) = Some JNull"
    by blast+
  show ?thesis using rl cl h rest by blast
qed

subsection \<open>The asset vault\<close>

text \<open>
  Claim C7. The asset vault keeps the last write of each slot: after two asset events
  with the same \<open>artifact\<close>, applied in order, the slot holds exactly the second; and an
  asset event changes no other slot.
\<close>
theorem assetVault_last_write_wins:
  assumes "get_prop p1 (lit ''type'') = Some (JStr (lit ''asset''))"
    and "get_prop p2 (lit ''type'') = Some (JStr (lit ''asset''))"
    and "get_prop p1 (lit ''artifact'') = get_prop p2 (lit ''artifact'')"
  shows "\<exists>st1 st2. apply_payload rt st p1 = Inr st1 \<and> apply_payload rt st1 p2 = Inr st2
           \<and> assetVault st2 (to_property_key rt (get_prop p2 (lit ''artifact''))) = Some p2
           \<and> (\<forall>k. k \<noteq> to_property_key rt (get_prop p1 (lit ''artifact'')) \<longrightarrow>
                  assetVault st1 k = assetVault st k)
           \<and> (\<forall>k. k \<noteq> to_property_key rt (get_prop p2 (lit ''artifact'')) \<longrightarrow>
                  assetVault st2 k = assetVault st1 k \<and> assetVault st2 k = assetVault st k)"
proof -
  have ne: "lit ''asset'' \<noteq> lit ''status''" by (simp add: lit_def)
  from assms(1) have n1: "p1 \<noteq> JNull" by (auto simp: get_prop_def)
  from assms(2) have n2: "p2 \<noteq> JNull" by (auto simp: get_prop_def)
  show ?thesis
    using assms n1 n2 ne by (simp add: apply_payload_def Let_def)
qed

text \<open>
  Two versions of the script, applied to a vault that holds the overlays.
\<close>
theorem assetVault_last_write_wins_witness:
  "\<exists>st1 st2.
     apply_payload example_runtime (initial_state\<lparr>assetVault := [lit ''overlays'' \<mapsto> overlays_event]\<rparr>)
       script_v1_event = Inr st1
   \<and> apply_payload example_runtime st1 script_v2_event = Inr st2
   \<and> assetVault st1 (lit ''script'') = Some script_v1_event
   \<and> assetVault st2 (lit ''script'') = Some script_v2_event
   \<and> assetVault st1 (lit ''overlays'') = Some overlays_event
   \<and> assetVault st2 (lit ''overlays'') = Some overlays_event"
proof -
  let ?st = "initial_state\<lparr>assetVault := [lit ''overlays'' \<mapsto> overlays_event]\<rparr>"
  have same: "get_prop script_v1_event (lit ''artifact'') = get_prop script_v2_event (lit ''artifact'')"
    by (simp add: example_artifacts)
  have key: "to_property_key example_runtime (get_prop script_v1_event (lit ''artifact'')) = lit ''script''"
    "to_property_key example_runtime (get_prop script_v2_event (lit ''artifact'')) = lit ''script''"
    by (simp_all add: example_artifacts to_property_key_def)
  from assetVault_last_write_wins [OF example_types(2) example_types(3) same, of example_runtime ?st]
  obtain st1 st2 where
    a1: "apply_payload example_runtime ?st script_v1_event = Inr st1"
    and a2: "apply_payload example_runtime st1 script_v2_event = Inr st2"
    and v2: "assetVault st2 (lit ''script'') = Some script_v2_event"
    and f1: "\<forall>k. k \<noteq> lit ''script'' \<longrightarrow> assetVault st1 k = assetVault ?st k"
    and f2: "\<forall>k. k \<noteq> lit ''script'' \<longrightarrow> assetVault st2 k = assetVault st1 k \<and> assetVault st2 k = assetVault ?st k"
    unfolding key by blast
  have ne: "lit ''overlays'' \<noteq> lit ''script''"
    using type_names_distinct by simp
  from f1 [rule_format, OF ne] have o1: "assetVault st1 (lit ''overlays'') = Some overlays_event"
    by simp
  from f2 [rule_format, OF ne, THEN conjunct2]
  have o2: "assetVault st2 (lit ''overlays'') = Some overlays_event"
    by simp
  from a1 have v1: "assetVault st1 (lit ''script'') = Some script_v1_event"
    using type_names_distinct
    by (auto simp: apply_payload_def Let_def example_types example_artifacts not_null
        to_property_key_def)
  from a1 a2 v1 v2 o1 o2 show ?thesis by blast
qed

end
